theory Spec2Isabelle
  imports Complex_Main
begin

section \<open>JavaScript values\<close>

text \<open>
  The store holds GeoJSON-shaped polygons whose coordinate components are JavaScript
  numbers, and the queries test them at run time with lodash's \<open>isNumber\<close>. A JavaScript
  number is an IEEE double: a finite value, \<open>NaN\<close>, \<open>Infinity\<close> or \<open>-Infinity\<close>. The finite
  doubles are represented by their rational value; the queries of the store never do
  arithmetic on them, they only classify them and copy them.
\<close>

datatype number = Finite rat | NaN | PosInfinity | NegInfinity

datatype jsval = JUndefined | JNull | JBool bool | JNumber number | JString string

text \<open>
  \<open>isNumber\<close> is imported from lodash (\<open>import { isNumber, isUndefined } from "lodash"\<close>):
  it holds exactly of the values whose \<open>typeof\<close> is \<open>"number"\<close>, so of \<open>NaN\<close> and of the
  infinities too. \<open>isFinite_js\<close> is the stricter test (lodash's \<open>isFinite\<close>) that the
  queries do not use.
\<close>

fun isNumber :: "jsval \<Rightarrow> bool" where
  "isNumber (JNumber n) = True"
| "isNumber v = False"

fun isFinite_js :: "jsval \<Rightarrow> bool" where
  "isFinite_js (JNumber (Finite q)) = True"
| "isFinite_js v = False"

text \<open>
  Reading index \<open>i\<close> of a JavaScript array, as the destructuring \<open>[lng, lat]\<close> does for the
  indices 0 and 1: \<open>undefined\<close> beyond the end of the array.
\<close>

definition at_index :: "jsval list \<Rightarrow> nat \<Rightarrow> jsval" where
  "at_index xs i = (if i < length xs then xs ! i else JUndefined)"

section \<open>The data model\<close>

text \<open>
  \<open>Field\<close> is imported from \<open>../types\<close>; its members are the ones the sources read
  (\<open>field.id\<close>, \<open>field.field_name\<close>, \<open>field.polygon\<close>). The member \<open>id\<close> is named
  \<open>id_field\<close> and the polygon's member \<open>type\<close> is named \<open>type_polygon\<close>. The coordinates are
  a list of rings, a ring is a list of positions, a position is an array of components.
\<close>

record Polygon =
  type_polygon :: string
  coordinates :: "jsval list list list"

record Field =
  id_field :: int
  field_name :: string
  polygon :: Polygon

record LatLngLiteral =
  lng :: jsval
  lat :: jsval

record FieldWithOuterRing = Field +
  outerRing :: "LatLngLiteral list option"

datatype FetchStatus = pending | fulfilled | rejected

record FieldsState =
  ids :: "int list"
  entities :: "int \<rightharpoonup> Field"
  selectedId :: "int option"
  fetchStatus :: "FetchStatus option"

text \<open>
  The root state has the \<open>fields\<close> slice (member \<open>fields_slice\<close>) and the device-event
  slice, whose reducer is not among the sources: its state is a type parameter.
\<close>

record 'd RootState =
  fields_slice :: FieldsState
  deviceEvents :: 'd

datatype error =
    NoFieldFoundWithId int
  | IncompleteFieldDataForId int
  | LibraryError string

section \<open>The fields slice\<close>

definition initialState :: FieldsState where
  "initialState = \<lparr>ids = [], entities = Map.empty, selectedId = None, fetchStatus = None\<rparr>"

definition clickField :: "FieldsState \<Rightarrow> int \<Rightarrow> FieldsState" where
  "clickField state payload = state\<lparr>selectedId := Some payload\<rparr>"

definition closeFieldInfoWindow :: "FieldsState \<Rightarrow> FieldsState" where
  "closeFieldInfoWindow state = state\<lparr>selectedId := None\<rparr>"

definition fetchFields_pending :: "FieldsState \<Rightarrow> FieldsState" where
  "fetchFields_pending state = state\<lparr>fetchStatus := Some pending\<rparr>"

text \<open>
  \<open>action.payload.reduce((acc, field) => ({ ...acc, [field.id]: { ...field } }), {})\<close>:
  a left fold over the payload with the callback \<open>entities_step\<close>, a later field with
  the same id overwriting an earlier one.
\<close>

definition entities_step :: "(int \<rightharpoonup> Field) \<Rightarrow> Field \<Rightarrow> (int \<rightharpoonup> Field)" where
  "entities_step acc field = acc(id_field field \<mapsto> field)"

definition fetchFields_fulfilled :: "FieldsState \<Rightarrow> Field list \<Rightarrow> FieldsState" where
  "fetchFields_fulfilled state payload =
     state\<lparr>fetchStatus := Some fulfilled,
           ids := map id_field payload,
           entities := foldl entities_step Map.empty payload\<rparr>"

definition fetchFields_rejected :: "FieldsState \<Rightarrow> FieldsState" where
  "fetchFields_rejected state = state\<lparr>fetchStatus := Some rejected\<rparr>"

text \<open>
  The actions the slice's reducer sees: its own two, the three of the \<open>fetchFields\<close> thunk,
  and every other action of the application (\<open>OtherAction\<close>), which a slice reducer
  answers with the state it was given.
\<close>

datatype Action =
    ClickField int
  | CloseFieldInfoWindow
  | FetchFieldsPending
  | FetchFieldsFulfilled "Field list"
  | FetchFieldsRejected
  | OtherAction

fun fieldsReducer :: "FieldsState \<Rightarrow> Action \<Rightarrow> FieldsState" where
  "fieldsReducer state (ClickField payload) = clickField state payload"
| "fieldsReducer state CloseFieldInfoWindow = closeFieldInfoWindow state"
| "fieldsReducer state FetchFieldsPending = fetchFields_pending state"
| "fieldsReducer state (FetchFieldsFulfilled payload) = fetchFields_fulfilled state payload"
| "fieldsReducer state FetchFieldsRejected = fetchFields_rejected state"
| "fieldsReducer state OtherAction = state"

section \<open>The queries\<close>

text \<open>\<open>Array.prototype.map\<close> with a callback that may throw: the first throw ends the map.\<close>

fun map_throwing :: "('a \<Rightarrow> error + 'b) \<Rightarrow> 'a list \<Rightarrow> error + 'b list" where
  "map_throwing f [] = Inr []"
| "map_throwing f (x # xs) =
     (case f x of
        Inl e \<Rightarrow> Inl e
      | Inr y \<Rightarrow> (case map_throwing f xs of Inl e \<Rightarrow> Inl e | Inr ys \<Rightarrow> Inr (y # ys)))"

definition getAllFields :: "'d RootState \<Rightarrow> error + Field list" where
  "getAllFields state =
     map_throwing
       (\<lambda>i. case entities (fields_slice state) i of
              None \<Rightarrow> Inl (NoFieldFoundWithId i)
            | Some entity \<Rightarrow> Inr entity)
       (ids (fields_slice state))"

definition getClickedFieldId :: "'d RootState \<Rightarrow> int option" where
  "getClickedFieldId state = selectedId (fields_slice state)"

text \<open>The callback of the \<open>reduce\<close> in \<open>getFieldById\<close>.\<close>

definition outerRing_step :: "LatLngLiteral list \<Rightarrow> jsval list \<Rightarrow> LatLngLiteral list" where
  "outerRing_step acc position =
     (let lng = at_index position 0; lat = at_index position 1
      in if isNumber lng \<and> isNumber lat then acc @ [\<lparr>lng = lng, lat = lat\<rparr>] else acc)"

text \<open>
  \<open>getFieldById\<close>: \<open>None\<close> is \<open>undefined\<close>. \<open>field.polygon.coordinates[0]\<close> is \<open>undefined\<close>
  when the polygon has no ring, and then so is \<open>outerRing\<close>.
\<close>

definition getFieldById :: "'d RootState \<Rightarrow> int \<Rightarrow> FieldWithOuterRing option" where
  "getFieldById state fieldId =
     (case entities (fields_slice state) fieldId of
        Some field \<Rightarrow>
          Some \<lparr>id_field = id_field field, field_name = field_name field,
                polygon = polygon field,
                outerRing =
                  (case coordinates (polygon field) of
                     [] \<Rightarrow> None
                   | ring # rings \<Rightarrow> Some (foldl outerRing_step [] ring))\<rparr>
      | None \<Rightarrow> None)"

text \<open>
  \<open>getFieldCenterById\<close> calls \<open>turf.center\<close> of the third-party package \<open>@turf/turf\<close>, which
  is a parameter here: given a polygon it returns the coordinates of the center point it
  computed, or throws.
\<close>

definition getFieldCenterById ::
  "(Polygon \<Rightarrow> error + jsval list) \<Rightarrow> 'd RootState \<Rightarrow> int \<Rightarrow> error + LatLngLiteral option" where
  "getFieldCenterById turf_center state i =
     (case getFieldById state i of
        Some fieldData \<Rightarrow>
          (case turf_center (polygon fieldData) of
             Inl e \<Rightarrow> Inl e
           | Inr cs \<Rightarrow>
               (let lng = at_index cs 0; lat = at_index cs 1
                in if isNumber lng \<and> isNumber lat
                   then Inr (Some \<lparr>lng = lng, lat = lat\<rparr>) else Inr None))
      | None \<Rightarrow> Inr None)"

section \<open>The selector of the selected-field card\<close>

record 'e FieldData =
  fieldName :: string
  center :: LatLngLiteral
  mostRecentEvents :: 'e

text \<open>
  The selector that \<open>SelectedFieldCard\<close> passes to \<open>useSelector\<close>. The query
  \<open>getMostRecentEventsPerField\<close> of the device-event slice is not among the sources and is a
  parameter: it is given the whole state and a field name, and returns an events mapping
  or throws. The selector calls it after the two field queries and before the check that
  throws.
\<close>

definition selectedFieldData ::
  "(Polygon \<Rightarrow> error + jsval list) \<Rightarrow> ('d RootState \<Rightarrow> string \<Rightarrow> error + 'e) \<Rightarrow>
   'd RootState \<Rightarrow> error + 'e FieldData option" where
  "selectedFieldData turf_center getMostRecentEventsPerField state =
     (case selectedId (fields_slice state) of
        None \<Rightarrow> Inr None
      | Some sel \<Rightarrow>
          (let name = map_option field_name (getFieldById state sel)
           in case getFieldCenterById turf_center state sel of
                Inl e \<Rightarrow> Inl e
              | Inr position \<Rightarrow>
                  (case getMostRecentEventsPerField state ''Perez-Brown'' of
                     Inl e \<Rightarrow> Inl e
                   | Inr events \<Rightarrow>
                       (case (name, position) of
                          (Some n, Some c) \<Rightarrow>
                            Inr (Some \<lparr>fieldName = n, center = c, mostRecentEvents = events\<rparr>)
                        | _ \<Rightarrow> Inl (IncompleteFieldDataForId sel)))))"

section \<open>Reachable store states\<close>

definition run_actions :: "Action list \<Rightarrow> FieldsState" where
  "run_actions actions = foldl fieldsReducer initialState actions"

definition ids_have_entities :: "FieldsState \<Rightarrow> bool" where
  "ids_have_entities state = (\<forall>i \<in> set (ids state). entities state i \<noteq> None)"

section \<open>The fetch actions\<close>




section \<open>Selecting a field\<close>

definition with_selection :: "'d RootState \<Rightarrow> int option \<Rightarrow> 'd RootState" where
  "with_selection state sel = state\<lparr>fields_slice := (fields_slice state)\<lparr>selectedId := sel\<rparr>\<rparr>"

text \<open>
  Modelled from the spec: \<open>getMostRecentEventsPerField\<close>, of the device-event slice that is
  not among the sources, is a query over the device events ("group device events by field
  ... a pass-through selection by field name"), so its result does not change with the
  selection pointer of the fields slice.
\<close>

definition ignores_selection :: "('d RootState \<Rightarrow> string \<Rightarrow> error + 'e) \<Rightarrow> bool" where
  "ignores_selection query =
     (\<forall>state sel name. query (with_selection state sel) name = query state name)"

section \<open>The center of the geometry library\<close>

fun finite_of :: "jsval \<Rightarrow> rat option" where
  "finite_of (JNumber (Finite q)) = Some q"
| "finite_of v = None"

text \<open>
  Modelled from the spec: the geometry library's center calculation (\<open>turf.center\<close> of
  \<open>@turf/turf\<close>, a third-party package that is not part of the sources), the "geometric
  midpoint of a field's polygon": the midpoint of the bounding box of all positions of the
  polygon. The model covers polygons that have a position and whose positions all have
  finite first and second components; for every other polygon it reports an error of the
  library. The theorems about \<open>getFieldCenterById\<close> hold for every function in its place;
  this one is the instance for the example.
\<close>

definition turf_center_bbox :: "Polygon \<Rightarrow> error + jsval list" where
  "turf_center_bbox pg =
     (let positions = concat (coordinates pg)
      in case (those (map (\<lambda>p. finite_of (at_index p 0)) positions),
               those (map (\<lambda>p. finite_of (at_index p 1)) positions)) of
           (Some (x # xs), Some (y # ys)) \<Rightarrow>
             Inr [JNumber (Finite ((foldl min x xs + foldl max x xs) / 2)),
                  JNumber (Finite ((foldl min y ys + foldl max y ys) / 2))]
         | _ \<Rightarrow> Inl (LibraryError ''coordinates must contain numbers''))"

section \<open>Example stores\<close>

definition num :: "rat \<Rightarrow> jsval" where
  "num q = JNumber (Finite q)"

text \<open>
  The field of the example: \<open>{id: 1, name: "North", polygon: {coordinates:
  [[[0,0],[0,1],[1,1],[1,0],[0,0]]]}}\<close>, and the store after the fetch that returns it.
\<close>

definition north :: Field where
  "north = \<lparr>id_field = 1, field_name = ''North'',
            polygon = \<lparr>type_polygon = ''Polygon'',
                       coordinates = [[[num 0, num 0], [num 0, num 1], [num 1, num 1],
                                       [num 1, num 0], [num 0, num 0]]]\<rparr>\<rparr>"

definition north_store :: "'d \<Rightarrow> 'd RootState" where
  "north_store d =
     \<lparr>fields_slice = fieldsReducer initialState (FetchFieldsFulfilled [north]), deviceEvents = d\<rparr>"

text \<open>A second field, and a field whose outer ring has positions of every kind.\<close>

definition south :: Field where
  "south = \<lparr>id_field = 2, field_name = ''South'',
            polygon = \<lparr>type_polygon = ''Polygon'',
                       coordinates = [[[num 0, num (-2)], [num 4, num (-2)], [num 4, num 0],
                                       [num 0, num (-2)]]]\<rparr>\<rparr>"

definition ragged :: Field where
  "ragged = \<lparr>id_field = 7, field_name = ''Ragged'',
             polygon = \<lparr>type_polygon = ''Polygon'',
                        coordinates = [[[num 3, num 4], [JNumber NaN, num 1], [num 5],
                                        [JString ''a'', num 2], [], [num 6, num 7, num 8],
                                        [num 9, JNumber PosInfinity]]]\<rparr>\<rparr>"

text \<open>A field whose outer ring has a \<open>NaN\<close> and an \<open>Infinity\<close> among its numbers.\<close>

definition skewed :: Field where
  "skewed = \<lparr>id_field = 4, field_name = ''Skewed'',
             polygon = \<lparr>type_polygon = ''Polygon'',
                        coordinates = [[[num 0, num 0], [JNumber NaN, num 1],
                                        [num 1, JNumber PosInfinity], [num 0, num 0]]]\<rparr>\<rparr>"

definition store_of :: "Field list \<Rightarrow> int option \<Rightarrow> 'd \<Rightarrow> 'd RootState" where
  "store_of payload sel d =
     \<lparr>fields_slice = (fieldsReducer initialState (FetchFieldsFulfilled payload))\<lparr>selectedId := sel\<rparr>,
      deviceEvents = d\<rparr>"

text \<open>
  Modelled from the spec: a device-event query for the examples, the "pass-through selection
  by field name" (\<open>getMostRecentEventsPerField\<close> itself is not among the sources). The
  device-event state maps a field name to its events mapping and the query looks the name
  up.
\<close>

definition lookup_events :: "(string \<Rightarrow> 'e) RootState \<Rightarrow> string \<Rightarrow> error + 'e" where
  "lookup_events state name = Inr (deviceEvents state name)"

section \<open>Facts about the folds and the map\<close>

lemma entities_fold_dom:
  "dom (foldl entities_step m ps) = dom m \<union> id_field ` set ps"
  by (induction ps arbitrary: m) (auto simp: entities_step_def)

lemma entities_fold_other:
  "i \<notin> id_field ` set ps \<Longrightarrow> foldl entities_step m ps i = m i"
  by (induction ps arbitrary: m) (auto simp: entities_step_def)

lemma entities_fold_distinct:
  "distinct (map id_field ps) \<Longrightarrow> f \<in> set ps \<Longrightarrow>
   foldl entities_step m ps (id_field f) = Some f"
proof (induction ps arbitrary: m)
  case Nil
  then show ?case by simp
next
  case (Cons p ps)
  show ?case
  proof (cases "f \<in> set ps")
    case True
    with Cons show ?thesis by simp
  next
    case False
    with Cons.prems have "f = p" and "id_field p \<notin> id_field ` set ps" by auto
    then have "foldl entities_step (entities_step m p) ps (id_field f) = entities_step m p (id_field f)"
      by (simp add: entities_fold_other)
    moreover have "entities_step m p (id_field p) = Some p"
      by (simp add: entities_step_def)
    ultimately show ?thesis using \<open>f = p\<close> by simp
  qed
qed

lemma map_throwing_total:
  "\<forall>x \<in> set xs. f x = Inr (g x) \<Longrightarrow> map_throwing f xs = Inr (map g xs)"
  by (induction xs) auto

lemma outerRing_fold:
  "foldl outerRing_step acc ring =
   acc @ map (\<lambda>p. \<lparr>lng = at_index p 0, lat = at_index p 1\<rparr>)
           (filter (\<lambda>p. isNumber (at_index p 0) \<and> isNumber (at_index p 1)) ring)"
  by (induction ring arbitrary: acc) (auto simp: outerRing_step_def Let_def)

lemma getAllFields_total:
  assumes "ids_have_entities (fields_slice state)"
  shows "getAllFields state = Inr (map (\<lambda>i. the (entities (fields_slice state) i)) (ids (fields_slice state)))"
  unfolding getAllFields_def
  by (rule map_throwing_total) (use assms in \<open>auto simp: ids_have_entities_def\<close>)

lemma getAllFields_fulfilled:
  assumes "distinct (map id_field ps)"
  shows "getAllFields \<lparr>fields_slice = fieldsReducer s (FetchFieldsFulfilled ps), deviceEvents = d\<rparr> = Inr ps"
proof -
  let ?st = "\<lparr>fields_slice = fieldsReducer s (FetchFieldsFulfilled ps), deviceEvents = d\<rparr>"
  have "ids_have_entities (fields_slice ?st)"
    using assms by (auto simp: ids_have_entities_def fetchFields_fulfilled_def entities_fold_distinct)
  then have "getAllFields ?st = Inr (map (\<lambda>i. the (entities (fields_slice ?st) i)) (ids (fields_slice ?st)))"
    by (rule getAllFields_total)
  also have "map (\<lambda>i. the (entities (fields_slice ?st) i)) (ids (fields_slice ?st)) = ps"
    using assms by (simp add: fetchFields_fulfilled_def entities_fold_distinct map_idI)
  finally show ?thesis .
qed

lemma ids_have_entities_step:
  "ids_have_entities s \<Longrightarrow> ids_have_entities (fieldsReducer s a)"
proof (cases a)
  case (FetchFieldsFulfilled ps)
  have "set (map id_field ps) \<subseteq> dom (foldl entities_step Map.empty ps)"
    by (simp add: entities_fold_dom)
  then show ?thesis
    by (auto simp: FetchFieldsFulfilled ids_have_entities_def fetchFields_fulfilled_def)
qed (simp_all add: ids_have_entities_def clickField_def closeFieldInfoWindow_def
       fetchFields_pending_def fetchFields_rejected_def)

lemma ids_have_entities_foldl:
  "ids_have_entities s \<Longrightarrow> ids_have_entities (foldl fieldsReducer s as)"
  by (induction as arbitrary: s) (simp_all add: ids_have_entities_step)

lemma north_store_entities:
  "entities (fields_slice (north_store d)) i = (if i = 1 then Some north else None)"
  by (simp add: north_store_def fetchFields_fulfilled_def entities_step_def north_def)

section \<open>Facts about the queries, the fetch status and the examples\<close>

lemma store_of_entities:
  "entities (fields_slice (store_of ps sel d)) = foldl entities_step Map.empty ps"
  "ids (fields_slice (store_of ps sel d)) = map id_field ps"
  "selectedId (fields_slice (store_of ps sel d)) = sel"
  "fetchStatus (fields_slice (store_of ps sel d)) = Some fulfilled"
  "deviceEvents (store_of ps sel d) = d"
  by (simp_all add: store_of_def fetchFields_fulfilled_def)

lemma getFieldById_present:
  assumes "entities (fields_slice state) i = Some field"
  shows "map_option field_name (getFieldById state i) = Some (field_name field)"
    and "map_option polygon (getFieldById state i) = Some (polygon field)"
  using assms by (simp_all add: getFieldById_def)

lemma getFieldCenterById_present:
  assumes "entities (fields_slice state) i = Some field"
  shows "getFieldCenterById turf_center state i =
     (case turf_center (polygon field) of
        Inl e \<Rightarrow> Inl e
      | Inr cs \<Rightarrow>
          if isNumber (at_index cs 0) \<and> isNumber (at_index cs 1)
          then Inr (Some \<lparr>lng = at_index cs 0, lat = at_index cs 1\<rparr>) else Inr None)"
  using assms by (simp add: getFieldCenterById_def getFieldById_def Let_def split: sum.splits)


lemma selectedFieldData_events:
  assumes "selectedFieldData turf_center query state = Inr (Some v)"
  shows "query state ''Perez-Brown'' = Inr (mostRecentEvents v)"
  using assms
  by (auto simp: selectedFieldData_def Let_def split: option.splits sum.splits)


lemma ids_examples: "id_field north = 1" "id_field south = 2" "id_field ragged = 7"
  by (simp_all add: north_def south_def ragged_def)

lemma field_names: "field_name north = ''North''" "field_name south = ''South''"
  by (simp_all add: north_def south_def)

lemma ragged_entity: "entities (fields_slice (store_of [ragged] None ())) 7 = Some ragged"
  by (simp add: store_of_entities entities_step_def ragged_def)

lemma two_fields_entities:
  "entities (fields_slice (store_of [north, south] sel d)) 1 = Some north"
  "entities (fields_slice (store_of [north, south] sel d)) 2 = Some south"
  by (simp_all add: store_of_entities entities_step_def north_def south_def)

lemma with_selection_store_of: "with_selection (store_of ps sel d) sel' = store_of ps sel' d"
  by (simp add: with_selection_def store_of_def)

lemma turf_center_bbox_north:
  "turf_center_bbox (polygon north) = Inr [num (1/2), num (1/2)]"
  by (simp add: turf_center_bbox_def north_def at_index_def num_def)

lemma turf_center_bbox_south:
  "turf_center_bbox (polygon south) = Inr [num 2, num (-1)]"
  by (simp add: turf_center_bbox_def south_def at_index_def num_def)

lemma ignores_selection_lookup_events: "ignores_selection lookup_events"
  by (simp add: ignores_selection_def lookup_events_def with_selection_def)

lemma selected_north:
  "selectedFieldData turf_center_bbox lookup_events (store_of [north, south] (Some 1) d)
   = Inr (Some \<lparr>fieldName = ''North'', center = \<lparr>lng = num (1/2), lat = num (1/2)\<rparr>,
                 mostRecentEvents = d ''Perez-Brown''\<rparr>)"
  by (simp add: selectedFieldData_def store_of_entities(3,5) lookup_events_def field_names
        getFieldById_present(1) [OF two_fields_entities(1)]
        getFieldCenterById_present [OF two_fields_entities(1)]
        turf_center_bbox_north at_index_def num_def)

lemma selected_south:
  "selectedFieldData turf_center_bbox lookup_events (store_of [north, south] (Some 2) d)
   = Inr (Some \<lparr>fieldName = ''South'', center = \<lparr>lng = num 2, lat = num (-1)\<rparr>,
                 mostRecentEvents = d ''Perez-Brown''\<rparr>)"
  by (simp add: selectedFieldData_def store_of_entities(3,5) lookup_events_def field_names
        getFieldById_present(1) [OF two_fields_entities(2)]
        getFieldCenterById_present [OF two_fields_entities(2)]
        turf_center_bbox_south at_index_def num_def)


section \<open>Selection\<close>

text \<open>
  C7. For every store state, \<open>closeFieldInfoWindow\<close> makes the selection pointer absent,
  and \<open>clickField\<close> sets the pointer to the given identifier whether or not the identifier
  has an entry in the entities map; neither touches the rest of the state.
\<close>

theorem selection_write_unvalidated:
  "selectedId (fieldsReducer state CloseFieldInfoWindow) = None
   \<and> selectedId (fieldsReducer (fieldsReducer state (ClickField i)) CloseFieldInfoWindow) = None
   \<and> selectedId (fieldsReducer state (ClickField i)) = Some i
   \<and> entities (fieldsReducer state (ClickField i)) = entities state
   \<and> ids (fieldsReducer state (ClickField i)) = ids state
   \<and> fetchStatus (fieldsReducer state (ClickField i)) = fetchStatus state"
  by (simp add: clickField_def closeFieldInfoWindow_def)

section \<open>Fetching\<close>

text \<open>
  C3. For every store state, the \<open>rejected\<close> case of the fetch sets \<open>fetchStatus\<close> to
  \<open>rejected\<close> and changes nothing else: the entities map, the ids list and the selection
  pointer are the ones of the state before.
\<close>

theorem rejected_keeps_data:
  "fieldsReducer state FetchFieldsRejected = state\<lparr>fetchStatus := Some rejected\<rparr>
   \<and> fetchStatus (fieldsReducer state FetchFieldsRejected) = Some rejected
   \<and> entities (fieldsReducer state FetchFieldsRejected) = entities state
   \<and> ids (fieldsReducer state FetchFieldsRejected) = ids state
   \<and> selectedId (fieldsReducer state FetchFieldsRejected) = selectedId state"
  by (simp add: fetchFields_rejected_def)

text \<open>
  C2. After a fulfilled fetch whose payload \<open>ps\<close> has pairwise distinct identifiers, the ids
  list has the length of \<open>ps\<close>, every id has an entity with that id, distinct ids have
  distinct entities, and \<open>getAllFields\<close> returns \<open>ps\<close>, in its order. A second fulfilled fetch
  with the payload \<open>qs\<close> replaces the collection: the ids list has the length of \<open>qs\<close>, ids
  and entities are those of \<open>qs\<close> only, so an id of the first fetch that is not in \<open>qs\<close> is
  gone from both, and \<open>getAllFields\<close> returns \<open>qs\<close> when its identifiers are pairwise
  distinct.
\<close>

theorem fulfilled_replaces_collection:
  assumes "distinct (map id_field ps)"
    and "s' = fieldsReducer s (FetchFieldsFulfilled ps)"
    and "s'' = fieldsReducer s' (FetchFieldsFulfilled qs)"
  shows "length (ids s') = length ps
    \<and> (\<forall>i \<in> set (ids s'). \<exists>f. entities s' i = Some f \<and> id_field f = i)
    \<and> inj_on (entities s') (set (ids s'))
    \<and> getAllFields \<lparr>fields_slice = s', deviceEvents = d\<rparr> = Inr ps
    \<and> length (ids s'') = length qs
    \<and> set (ids s'') = id_field ` set qs
    \<and> dom (entities s'') = id_field ` set qs
    \<and> (\<forall>i \<in> set (ids s'). i \<notin> id_field ` set qs \<longrightarrow> i \<notin> set (ids s'') \<and> entities s'' i = None)
    \<and> (distinct (map id_field qs) \<longrightarrow>
          getAllFields \<lparr>fields_slice = s'', deviceEvents = d\<rparr> = Inr qs)"
proof -
  have ids1: "ids s' = map id_field ps" and ent1: "entities s' = foldl entities_step Map.empty ps"
    using assms(2) by (simp_all add: fetchFields_fulfilled_def)
  have ids2: "ids s'' = map id_field qs" and ent2: "entities s'' = foldl entities_step Map.empty qs"
    using assms(3) by (simp_all add: fetchFields_fulfilled_def)
  have a: "length (ids s') = length ps" by (simp add: ids1)
  have b: "\<forall>i \<in> set (ids s'). \<exists>f. entities s' i = Some f \<and> id_field f = i"
    using assms(1) by (auto simp: ids1 ent1 entities_fold_distinct)
  have c: "inj_on (entities s') (set (ids s'))"
  proof (rule inj_onI)
    fix i j assume "i \<in> set (ids s')" "j \<in> set (ids s')" "entities s' i = entities s' j"
    with b show "i = j" by (metis option.inject)
  qed
  have d1: "getAllFields \<lparr>fields_slice = s', deviceEvents = d\<rparr> = Inr ps"
    unfolding assms(2) using assms(1) by (rule getAllFields_fulfilled)
  have e: "length (ids s'') = length qs" by (simp add: ids2)
  have f: "set (ids s'') = id_field ` set qs" by (simp add: ids2)
  have g: "dom (entities s'') = id_field ` set qs" by (simp add: ent2 entities_fold_dom)
  have h: "\<forall>i \<in> set (ids s'). i \<notin> id_field ` set qs \<longrightarrow> i \<notin> set (ids s'') \<and> entities s'' i = None"
    using f g by blast
  have k: "distinct (map id_field qs) \<longrightarrow>
          getAllFields \<lparr>fields_slice = s'', deviceEvents = d\<rparr> = Inr qs"
    unfolding assms(3) using getAllFields_fulfilled [of qs s' d] by blast
  from a b c d1 e f g h k show ?thesis by blast
qed

theorem fulfilled_replaces_collection_witness:
  "distinct (map id_field [north, south])
   \<and> ids (fieldsReducer initialState (FetchFieldsFulfilled [north, south])) = [1, 2]
   \<and> getAllFields \<lparr>fields_slice = fieldsReducer initialState (FetchFieldsFulfilled [north, south]),
                    deviceEvents = ()\<rparr> = Inr [north, south]
   \<and> length (ids (fieldsReducer (fieldsReducer initialState (FetchFieldsFulfilled [north, south]))
                    (FetchFieldsFulfilled [ragged]))) = 1
   \<and> entities (fieldsReducer (fieldsReducer initialState (FetchFieldsFulfilled [north, south]))
                    (FetchFieldsFulfilled [ragged])) 1 = None
   \<and> getAllFields \<lparr>fields_slice =
                      fieldsReducer (fieldsReducer initialState (FetchFieldsFulfilled [north, south]))
                        (FetchFieldsFulfilled [ragged]),
                    deviceEvents = ()\<rparr> = Inr [ragged]"
proof -
  let ?s1 = "fieldsReducer initialState (FetchFieldsFulfilled [north, south])"
  let ?s2 = "fieldsReducer ?s1 (FetchFieldsFulfilled [ragged])"
  have h: "distinct (map id_field [north, south])" by (simp add: ids_examples)
  have i1: "ids ?s1 = [1, 2]" by (simp add: fetchFields_fulfilled_def ids_examples)
  have k: "distinct (map id_field [ragged])" by simp
  note t = fulfilled_replaces_collection
    [where s = initialState and qs = "[ragged]" and d = "()", OF h refl refl]
  from t have a: "getAllFields \<lparr>fields_slice = ?s1, deviceEvents = ()\<rparr> = Inr [north, south]"
    by blast
  from t have b: "length (ids ?s2) = length [ragged]" by blast
  have m: "1 \<in> set (ids ?s1)" unfolding i1 by simp
  have n: "1 \<notin> id_field ` set [ragged]" by (simp add: ids_examples)
  from t m n have c: "entities ?s2 1 = None" by blast
  from t k have d: "getAllFields \<lparr>fields_slice = ?s2, deviceEvents = ()\<rparr> = Inr [ragged]"
    by blast
  from h i1 a b c d show ?thesis by simp
qed

section \<open>Looking a field up\<close>

text \<open>
  C6. For every store state and every identifier with no entry in the entities map,
  \<open>getFieldById\<close> returns \<open>undefined\<close> (\<open>None\<close>); the function has no error result.
\<close>

theorem getFieldById_absent:
  "entities (fields_slice state) i = None \<Longrightarrow> getFieldById state i = None"
  by (simp add: getFieldById_def)

theorem getFieldById_absent_witness:
  "entities (fields_slice (north_store ())) 2 = None \<and> getFieldById (north_store ()) 2 = None"
proof -
  have h: "entities (fields_slice (north_store ())) 2 = None"
    by (simp add: north_store_entities)
  from h getFieldById_absent [OF h] show ?thesis by simp
qed

section \<open>Every id has its entity\<close>

text \<open>
  C10. In every store state reached from the initial state by a list of actions, whatever
  their payloads, every identifier of the ids list has an entry in the entities map; so
  \<open>getAllFields\<close> returns the entities of the ids and never throws.
\<close>

theorem ids_have_entities_reachable:
  "ids_have_entities (run_actions actions)
   \<and> getAllFields \<lparr>fields_slice = run_actions actions, deviceEvents = d\<rparr> =
       Inr (map (\<lambda>i. the (entities (run_actions actions) i)) (ids (run_actions actions)))
   \<and> (\<forall>e. getAllFields \<lparr>fields_slice = run_actions actions, deviceEvents = d\<rparr> \<noteq> Inl e)"
proof -
  have "ids_have_entities initialState"
    by (simp add: ids_have_entities_def initialState_def)
  then have inv: "ids_have_entities (run_actions actions)"
    unfolding run_actions_def by (rule ids_have_entities_foldl)
  then have "ids_have_entities (fields_slice \<lparr>fields_slice = run_actions actions, deviceEvents = d\<rparr>)"
    by simp
  from getAllFields_total [OF this] inv show ?thesis by simp
qed

theorem ids_have_entities_reachable_witness:
  "ids_have_entities (run_actions [FetchFieldsPending, FetchFieldsFulfilled [north, south], ClickField 9])
   \<and> ids (run_actions [FetchFieldsPending, FetchFieldsFulfilled [north, south], ClickField 9]) = [1, 2]
   \<and> selectedId (run_actions [FetchFieldsPending, FetchFieldsFulfilled [north, south], ClickField 9]) = Some 9
   \<and> getAllFields
        \<lparr>fields_slice = run_actions [FetchFieldsPending, FetchFieldsFulfilled [north, south], ClickField 9],
         deviceEvents = ()\<rparr> = Inr [north, south]"
proof -
  let ?s = "run_actions [FetchFieldsPending, FetchFieldsFulfilled [north, south], ClickField 9]"
  have i: "ids ?s = [1, 2]" and sel: "selectedId ?s = Some 9"
    and e: "entities ?s 1 = Some north" "entities ?s 2 = Some south"
    by (simp_all add: run_actions_def clickField_def fetchFields_fulfilled_def entities_step_def
          ids_examples)
  note t = ids_have_entities_reachable [of "[FetchFieldsPending, FetchFieldsFulfilled [north, south], ClickField 9]" "()"]
  from t have inv: "ids_have_entities ?s" by blast
  from t have "getAllFields \<lparr>fields_slice = ?s, deviceEvents = ()\<rparr>
      = Inr (map (\<lambda>i. the (entities ?s i)) (ids ?s))" by blast
  then have "getAllFields \<lparr>fields_slice = ?s, deviceEvents = ()\<rparr> = Inr [north, south]"
    by (simp add: i e)
  with inv i sel show ?thesis by simp
qed

section \<open>The outer ring\<close>

text \<open>
  C1, as the code has it. For every identifier with an entity in the store, \<open>getFieldById\<close>
  returns the entity's members and an outer ring: no ring when the polygon has none, and
  otherwise the positions of the first ring whose first two components both pass
  \<open>isNumber\<close>, in their order; a position that does not pass is dropped and nothing is
  raised. So both components of every pair of the result are numbers, which \<open>NaN\<close> and the
  infinities are too.
\<close>

theorem getFieldById_outerRing_numbers:
  assumes "entities (fields_slice state) i = Some field"
  shows "\<exists>r. getFieldById state i = Some r
      \<and> id_field r = id_field field \<and> field_name r = field_name field
      \<and> polygon r = polygon field
      \<and> outerRing r =
          (case coordinates (polygon field) of
             [] \<Rightarrow> None
           | ring # rings \<Rightarrow>
               Some (map (\<lambda>p. \<lparr>lng = at_index p 0, lat = at_index p 1\<rparr>)
                      (filter (\<lambda>p. isNumber (at_index p 0) \<and> isNumber (at_index p 1)) ring)))
      \<and> (\<forall>ps. outerRing r = Some ps \<longrightarrow> (\<forall>p \<in> set ps. isNumber (lng p) \<and> isNumber (lat p)))"
  using assms by (auto simp: getFieldById_def outerRing_fold split: list.splits)

theorem getFieldById_outerRing_numbers_witness:
  "entities (fields_slice (store_of [ragged] None ())) 7 = Some ragged
   \<and> map_option outerRing (getFieldById (store_of [ragged] None ()) 7) =
       Some (Some [\<lparr>lng = num 3, lat = num 4\<rparr>, \<lparr>lng = JNumber NaN, lat = num 1\<rparr>,
                   \<lparr>lng = num 6, lat = num 7\<rparr>, \<lparr>lng = num 9, lat = JNumber PosInfinity\<rparr>])"
proof -
  from getFieldById_outerRing_numbers [OF ragged_entity]
  obtain r where "getFieldById (store_of [ragged] None ()) 7 = Some r"
    and "outerRing r =
          (case coordinates (polygon ragged) of
             [] \<Rightarrow> None
           | ring # rings \<Rightarrow>
               Some (map (\<lambda>p. \<lparr>lng = at_index p 0, lat = at_index p 1\<rparr>)
                      (filter (\<lambda>p. isNumber (at_index p 0) \<and> isNumber (at_index p 1)) ring)))"
    by blast
  then show ?thesis
    using ragged_entity by (simp add: ragged_def at_index_def num_def)
qed

text \<open>
  C1, as stated, asks for finite components. The store that holds the field \<open>skewed\<close> gives
  an outer ring with the pairs \<open>(NaN, 1)\<close> and \<open>(1, Infinity)\<close>.
\<close>

theorem getFieldById_outerRing_finite_counterexample:
  "entities (fields_slice (store_of [skewed] None ())) 4 = Some skewed
   \<and> map_option outerRing (getFieldById (store_of [skewed] None ()) 4) =
       Some (Some [\<lparr>lng = num 0, lat = num 0\<rparr>, \<lparr>lng = JNumber NaN, lat = num 1\<rparr>,
                   \<lparr>lng = num 1, lat = JNumber PosInfinity\<rparr>, \<lparr>lng = num 0, lat = num 0\<rparr>])
   \<and> \<not> isFinite_js (lng \<lparr>lng = JNumber NaN, lat = num 1\<rparr>)
   \<and> \<not> isFinite_js (lat \<lparr>lng = num 1, lat = JNumber PosInfinity\<rparr>)"
  by (simp add: getFieldById_def store_of_entities entities_step_def skewed_def
        outerRing_step_def at_index_def num_def Let_def)

section \<open>The selected-field view\<close>

text \<open>
  C5. For every store state whose selection pointer is set to an identifier with no entry in
  the entities map, the selector of the selected-field view raises an error: the error of
  the device-event query if that throws, and otherwise "Incomplete field data for id".
\<close>

theorem dangling_selection_raises:
  assumes "selectedId (fields_slice state) = Some sel"
    and "entities (fields_slice state) sel = None"
  shows "isl (selectedFieldData turf_center query state)
    \<and> (\<forall>events. query state ''Perez-Brown'' = Inr events \<longrightarrow>
          selectedFieldData turf_center query state = Inl (IncompleteFieldDataForId sel))"
  using assms
  by (auto simp: selectedFieldData_def getFieldCenterById_def getFieldById_def split: sum.splits)

theorem dangling_selection_raises_witness:
  "selectedId (fields_slice (store_of [north] (Some 5) (\<lambda>name::string. name))) = Some 5
   \<and> entities (fields_slice (store_of [north] (Some 5) (\<lambda>name::string. name))) 5 = None
   \<and> selectedFieldData turf_center_bbox lookup_events (store_of [north] (Some 5) (\<lambda>name::string. name))
       = Inl (IncompleteFieldDataForId 5)"
proof -
  let ?st = "store_of [north] (Some 5) (\<lambda>name::string. name)"
  have a: "selectedId (fields_slice ?st) = Some 5" by (simp add: store_of_entities)
  have b: "entities (fields_slice ?st) 5 = None"
    by (simp add: store_of_entities entities_step_def north_def)
  have c: "lookup_events ?st ''Perez-Brown'' = Inr ''Perez-Brown''"
    by (simp add: lookup_events_def store_of_entities)
  from dangling_selection_raises [OF a b, of turf_center_bbox lookup_events] c
  have "selectedFieldData turf_center_bbox lookup_events ?st = Inl (IncompleteFieldDataForId 5)"
    by simp
  with a b show ?thesis by simp
qed

text \<open>
  C4. The selector asks the device-event query for the field name \<open>Perez-Brown\<close>, whatever
  the selection: the events mapping of a view it returns is the query's result for that
  name. When the query does not read the selection pointer, two states that differ only in
  the selected identifier give views with the same events mapping.
\<close>

theorem events_independent_of_selection:
  assumes "ignores_selection query"
  shows "(\<forall>v. selectedFieldData turf_center query (with_selection state (Some a)) = Inr (Some v)
            \<longrightarrow> query state ''Perez-Brown'' = Inr (mostRecentEvents v))
    \<and> (\<forall>va vb. selectedFieldData turf_center query (with_selection state (Some a)) = Inr (Some va)
            \<longrightarrow> selectedFieldData turf_center query (with_selection state (Some b)) = Inr (Some vb)
            \<longrightarrow> mostRecentEvents va = mostRecentEvents vb)"
proof -
  have same: "query (with_selection state sel) ''Perez-Brown'' = query state ''Perez-Brown''" for sel
    using assms by (simp add: ignores_selection_def)
  have one: "query state ''Perez-Brown'' = Inr (mostRecentEvents v)"
    if "selectedFieldData turf_center query (with_selection state (Some c)) = Inr (Some v)" for c v
    using selectedFieldData_events [OF that] same by simp
  show ?thesis
  proof (intro conjI allI impI)
    fix v assume "selectedFieldData turf_center query (with_selection state (Some a)) = Inr (Some v)"
    then show "query state ''Perez-Brown'' = Inr (mostRecentEvents v)" by (rule one)
  next
    fix va vb
    assume va: "selectedFieldData turf_center query (with_selection state (Some a)) = Inr (Some va)"
      and vb: "selectedFieldData turf_center query (with_selection state (Some b)) = Inr (Some vb)"
    from one [OF va] one [OF vb] show "mostRecentEvents va = mostRecentEvents vb" by simp
  qed
qed

theorem events_independent_of_selection_witness:
  "ignores_selection (lookup_events :: (string \<Rightarrow> nat) RootState \<Rightarrow> string \<Rightarrow> error + nat)
   \<and> (\<exists>va vb.
        selectedFieldData turf_center_bbox lookup_events
          (with_selection (store_of [north, south] None (length :: string \<Rightarrow> nat)) (Some 1))
          = Inr (Some va)
        \<and> selectedFieldData turf_center_bbox lookup_events
          (with_selection (store_of [north, south] None (length :: string \<Rightarrow> nat)) (Some 2))
          = Inr (Some vb)
        \<and> fieldName va = ''North'' \<and> fieldName vb = ''South''
        \<and> mostRecentEvents va = 11 \<and> mostRecentEvents vb = 11)"
proof -
  let ?st = "store_of [north, south] None (length :: string \<Rightarrow> nat)"
  let ?va = "\<lparr>fieldName = ''North'', center = \<lparr>lng = num (1/2), lat = num (1/2)\<rparr>,
              mostRecentEvents = length ''Perez-Brown''\<rparr>"
  let ?vb = "\<lparr>fieldName = ''South'', center = \<lparr>lng = num 2, lat = num (-1)\<rparr>,
              mostRecentEvents = length ''Perez-Brown''\<rparr>"
  have h: "ignores_selection (lookup_events :: (string \<Rightarrow> nat) RootState \<Rightarrow> string \<Rightarrow> error + nat)"
    by (rule ignores_selection_lookup_events)
  have a: "selectedFieldData turf_center_bbox lookup_events (with_selection ?st (Some 1)) = Inr (Some ?va)"
    by (simp only: with_selection_store_of selected_north)
  have b: "selectedFieldData turf_center_bbox lookup_events (with_selection ?st (Some 2)) = Inr (Some ?vb)"
    by (simp only: with_selection_store_of selected_south)
  from events_independent_of_selection [OF h, of turf_center_bbox ?st 1 2] a b
  have "mostRecentEvents ?va = mostRecentEvents ?vb" by blast
  with h a b show ?thesis by simp
qed

section \<open>The fetch status\<close>




section \<open>The center of a field\<close>



end
